theory Spec2Isabelle
  imports Main "HOL-Library.Word"
begin

section \<open>Go values used by audio.go\<close>

text \<open>
  A Go string is a sequence of bytes, as a HOL \<open>string\<close> is. A \<open>float32\<close> is kept as its
  IEEE 754 binary32 bit pattern: one sign bit, eight exponent bits, 23 fraction bits.
\<close>

type_synonym byte = "8 word"
type_synonym float32 = "32 word"

text \<open>
  An \<open>error\<close> value is either a message (\<open>errors.New\<close>, or an error handed back by the
  operating system, the form builder or the transport) or a wrapped error
  (\<open>fmt.Errorf(prefix + "%w", err)\<close>).
\<close>

datatype error = New string | Errorf string error

fun Error :: "error \<Rightarrow> string" where
  "Error (New s) = s"
| "Error (Errorf p e) = p @ Error e"

text \<open>A Go function either returns or panics (here: on a nil pointer dereference).\<close>

datatype 'a go = Panic | Return 'a

text \<open>\<open>*p\<close> for a pointer \<open>p\<close>; \<open>None\<close> is the nil pointer.\<close>

definition deref :: "'a option \<Rightarrow> 'a go" where
  "deref p = (case p of None \<Rightarrow> Panic | Some v \<Rightarrow> Return v)"

subsection \<open>strings.Contains\<close>

fun HasPrefix :: "string \<Rightarrow> string \<Rightarrow> bool" where
  "HasPrefix s [] = True"
| "HasPrefix [] (p # ps) = False"
| "HasPrefix (c # cs) (p # ps) = (c = p \<and> HasPrefix cs ps)"

fun Contains :: "string \<Rightarrow> string \<Rightarrow> bool" where
  "Contains [] substr = (substr = [])"
| "Contains (c # cs) substr = (HasPrefix (c # cs) substr \<or> Contains cs substr)"

subsection \<open>float32 and the verb \<open>%.2f\<close>\<close>

definition f32_sign :: "float32 \<Rightarrow> bool" where
  "f32_sign w = (unat w div 2 ^ 31 = 1)"

definition f32_exp :: "float32 \<Rightarrow> nat" where
  "f32_exp w = (unat w div 2 ^ 23) mod 256"

definition f32_mant :: "float32 \<Rightarrow> nat" where
  "f32_mant w = unat w mod 2 ^ 23"

definition IsNaN :: "float32 \<Rightarrow> bool" where
  "IsNaN w = (f32_exp w = 255 \<and> f32_mant w \<noteq> 0)"

definition IsInf :: "float32 \<Rightarrow> bool" where
  "IsInf w = (f32_exp w = 255 \<and> f32_mant w = 0)"

text \<open>
  The comparison \<open>x != 0\<close>: false for both signed zeros, true for every other value,
  NaN included.
\<close>

definition f32_ne_zero :: "float32 \<Rightarrow> bool" where
  "f32_ne_zero w = (\<not> (f32_exp w = 0 \<and> f32_mant w = 0))"

text \<open>
  The magnitude of a finite value is the fraction \<open>f32_num w / f32_den w\<close>:
  \<open>mant * 2^-149\<close> for a subnormal, \<open>(2^23 + mant) * 2^(exp - 150)\<close> otherwise.
\<close>

definition f32_num :: "float32 \<Rightarrow> nat" where
  "f32_num w =
     (if f32_exp w = 0 then f32_mant w
      else if 150 \<le> f32_exp w then (2 ^ 23 + f32_mant w) * 2 ^ (f32_exp w - 150)
      else 2 ^ 23 + f32_mant w)"

definition f32_den :: "float32 \<Rightarrow> nat" where
  "f32_den w =
     (if f32_exp w = 0 then 2 ^ 149
      else if 150 \<le> f32_exp w then 1
      else 2 ^ (150 - f32_exp w))"

text \<open>\<open>n / d\<close> rounded to the nearest integer, a tie going to the even neighbour.\<close>

definition round_half_even :: "nat \<Rightarrow> nat \<Rightarrow> nat" where
  "round_half_even n d =
     (let q = n div d; r = n mod d
      in if d < 2 * r \<or> (2 * r = d \<and> odd q) then q + 1 else q)"

text \<open>The decimal digit \<open>d\<close>, for \<open>d\<close> below ten.\<close>

definition digit :: "nat \<Rightarrow> char" where
  "digit d = ''0123456789'' ! (d mod 10)"

fun Itoa :: "nat \<Rightarrow> string" where
  "Itoa n = (if n < 10 then [digit n] else Itoa (n div 10) @ [digit (n mod 10)])"

declare Itoa.simps [simp del]

text \<open>
  \<open>fmt.Sprintf("%.2f", x)\<close> for a \<open>float32\<close> \<open>x\<close>, as the Go library prints it
  (\<open>strconv.FormatFloat\<close> with format \<open>f\<close>, precision 2 and bit size 32): the exact
  binary value is rounded to two decimals, a tie going to the even digit, and printed
  as a minus sign if the sign bit is set, the integer part, a point and two digits.
  So 0.125 prints as \<open>0.12\<close>, 0.375 as \<open>0.38\<close> and -0.001 as \<open>-0.00\<close>. The values
  that are not finite print as \<open>NaN\<close>, \<open>+Inf\<close> and \<open>-Inf\<close>.
\<close>

definition Sprintf_2f :: "float32 \<Rightarrow> string" where
  "Sprintf_2f w =
     (if IsNaN w then ''NaN''
      else if IsInf w then (if f32_sign w then ''-Inf'' else ''+Inf'')
      else
        (let h = round_half_even (100 * f32_num w) (f32_den w)
         in (if f32_sign w then ''-'' else '''') @ Itoa (h div 100) @ ''.'' @
            [digit (h mod 100 div 10), digit (h mod 10)]))"

text \<open>
  A string of the shape \<open>[-]d...d.dd\<close>: an optional minus sign, at least one digit,
  a point, and exactly two digits.
\<close>

definition is_digit :: "char \<Rightarrow> bool" where
  "is_digit c = (c \<in> set ''0123456789'')"

definition two_decimals :: "string \<Rightarrow> bool" where
  "two_decimals s =
     (let u = (case s of [] \<Rightarrow> [] | c # cs \<Rightarrow> if c = CHR ''-'' then cs else s);
          ip = takeWhile is_digit u;
          fp = dropWhile is_digit u
      in ip \<noteq> [] \<and> length fp = 3 \<and> hd fp = CHR ''.'' \<and> list_all is_digit (tl fp))"

section \<open>The request, the response and the environment\<close>

record AudioRequest =
  Model :: string
  FilePath :: string
  FileBytes :: "byte list option"
  FileName :: "string option"
  Prompt :: string
  Temperature :: float32
  Language :: string
  Format :: string

record AudioResponse =
  Text :: string

definition AudioResponse_zero :: AudioResponse where
  "AudioResponse_zero = \<lparr>Text = []\<rparr>"

definition AudioResponseFormatJSON :: string where
  "AudioResponseFormatJSON = ''json''"

definition AudioResponseFormatSRT :: string where
  "AudioResponseFormatSRT = ''srt''"

definition AudioResponseFormatVTT :: string where
  "AudioResponseFormatVTT = ''vtt''"

text \<open>The handle that \<open>os.Open\<close> returns for a path.\<close>

datatype os_File = File string

text \<open>The argument of \<open>sendRequest\<close> that receives the decoded reply.\<close>

datatype target = ResponsePtr | TextPtr

text \<open>What a run does to the world outside, in the order it does it.\<close>

datatype event =
    OsOpen string
  | FileClose os_File
  | CreateFormFile string os_File
  | CreateFormFileFromBytes string string "byte list"
  | WriteField string string
  | BuilderClose
  | NewRequest string string
  | SendRequest string string target

record request =
  Method :: string
  URL :: string
  ContentType :: string
  Body :: "event list"

text \<open>
  The collaborators that audio.go calls and does not define: the file system, the form
  builder (an interface; a call's outcome may depend on everything done before it), the
  client's base URL, \<open>http.NewRequestWithContext\<close>, the transport and the JSON decoder.
  \<open>None\<close> is Go's \<open>nil\<close> error.
\<close>

record env =
  os_Open :: "string \<Rightarrow> error option"
  builder :: "event list \<Rightarrow> event \<Rightarrow> error option"
  formDataContentType :: "event list \<Rightarrow> string"
  fullURL :: "string \<Rightarrow> string"
  NewRequestWithContext :: "string \<Rightarrow> string \<Rightarrow> error option"
  transport :: "request \<Rightarrow> error + string"
  json_Decode :: "string \<Rightarrow> error + AudioResponse"

section \<open>audioMultipartForm\<close>

definition HasJSONResponse :: "AudioRequest \<Rightarrow> bool" where
  "HasJSONResponse r = (Format r = [] \<or> Format r = AudioResponseFormatJSON)"

text \<open>The events that are calls of a form builder method.\<close>

fun is_form_call :: "event \<Rightarrow> bool" where
  "is_form_call (CreateFormFile n f) = True"
| "is_form_call (CreateFormFileFromBytes n fn bs) = True"
| "is_form_call (WriteField k v) = True"
| "is_form_call BuilderClose = True"
| "is_form_call _ = False"

text \<open>The events that build or send an HTTP request.\<close>

fun is_http :: "event \<Rightarrow> bool" where
  "is_http (NewRequest m u) = True"
| "is_http (SendRequest m u v) = True"
| "is_http _ = False"

text \<open>One call of a form builder method: the call is logged and its outcome returned.\<close>

definition call :: "env \<Rightarrow> event \<Rightarrow> event list \<Rightarrow> error option \<times> event list" where
  "call e c tr = (builder e tr c, tr @ [c])"

text \<open>Lines 131 to 169: the fields after the file, and the closing of the writer.\<close>

definition writeFields :: "env \<Rightarrow> AudioRequest \<Rightarrow> event list \<Rightarrow> error option \<times> event list" where
  "writeFields e r tr0 =
     (case call e (WriteField ''model'' (Model r)) tr0 of
        (Some err, tr1) \<Rightarrow> (Some (Errorf ''writing model name: '' err), tr1)
      | (None, tr1) \<Rightarrow>
     (case (if Prompt r \<noteq> [] then call e (WriteField ''prompt'' (Prompt r)) tr1
            else (None, tr1)) of
        (Some err, tr2) \<Rightarrow> (Some (Errorf ''writing prompt: '' err), tr2)
      | (None, tr2) \<Rightarrow>
     (case (if Format r \<noteq> [] then call e (WriteField ''response_format'' (Format r)) tr2
            else (None, tr2)) of
        (Some err, tr3) \<Rightarrow> (Some (Errorf ''writing format: '' err), tr3)
      | (None, tr3) \<Rightarrow>
     (case (if f32_ne_zero (Temperature r)
            then call e (WriteField ''temperature'' (Sprintf_2f (Temperature r))) tr3
            else (None, tr3)) of
        (Some err, tr4) \<Rightarrow> (Some (Errorf ''writing temperature: '' err), tr4)
      | (None, tr4) \<Rightarrow>
     (case (if Language r \<noteq> [] then call e (WriteField ''language'' (Language r)) tr4
            else (None, tr4)) of
        (Some err, tr5) \<Rightarrow> (Some (Errorf ''writing language: '' err), tr5)
      | (None, tr5) \<Rightarrow> call e BuilderClose tr5)))))"

text \<open>
  Lines 99 to 170. The deferred \<open>f.Close()\<close> of the path branch runs when the function
  returns, whatever it returns. In the condition of line 117 the right operand of
  \<open>||\<close>, which dereferences \<open>request.FileName\<close>, is evaluated only when the left
  operand is false.
\<close>

definition audioMultipartForm ::
  "env \<Rightarrow> AudioRequest \<Rightarrow> event list \<Rightarrow> error option go \<times> event list" where
  "audioMultipartForm e r tr =
     (if FilePath r \<noteq> [] then
        (let tr1 = tr @ [OsOpen (FilePath r)] in
         case os_Open e (FilePath r) of
           Some err \<Rightarrow> (Return (Some (Errorf ''opening audio file: '' err)), tr1)
         | None \<Rightarrow>
             (let f = File (FilePath r);
                  (res, tr3) =
                    (case call e (CreateFormFile ''file'' f) tr1 of
                       (Some err, tr2) \<Rightarrow> (Some (Errorf ''creating form file: '' err), tr2)
                     | (None, tr2) \<Rightarrow> writeFields e r tr2)
              in (Return res, tr3 @ [FileClose f])))
      else if FileBytes r \<noteq> None then
        (case (if FileName r = None then Return True
               else (case deref (FileName r) of
                       Panic \<Rightarrow> Panic
                     | Return name \<Rightarrow> Return (Contains name ''.'' = False))) of
           Panic \<Rightarrow> (Panic, tr)
         | Return True \<Rightarrow>
             (Return (Some (New
                ''FileName with correct extension is required while FileBytes is used'')), tr)
         | Return False \<Rightarrow>
           (case deref (FileName r) of
              Panic \<Rightarrow> (Panic, tr)
            | Return name \<Rightarrow>
           (case deref (FileBytes r) of
              Panic \<Rightarrow> (Panic, tr)
            | Return bytes \<Rightarrow>
           (case call e (CreateFormFileFromBytes ''file'' name bytes) tr of
              (Some err, tr1) \<Rightarrow> (Return (Some (Errorf ''creating form bytes: '' err)), tr1)
            | (None, tr1) \<Rightarrow>
                (let (res, tr2) = writeFields e r tr1 in (Return res, tr2))))))
      else (Return (Some (New ''either FilePath or FileBytes should be specified'')), tr))"

section \<open>callAudioAPI\<close>

text \<open>
  Modelled from the spec: \<open>sendRequest\<close>, a method of the client that audio.go calls and
  that is defined in another file of the repository. The request goes through the
  transport, which gives an error or the body of the reply. With a pointer to the
  response struct the body is decoded as a JSON object with a \<open>text\<close> field, and a
  decoding failure is an error; with a pointer to the response's \<open>Text\<close> the whole
  body, verbatim, becomes the text and nothing is parsed.
\<close>

definition sendRequest ::
  "env \<Rightarrow> request \<Rightarrow> target \<Rightarrow> AudioResponse \<Rightarrow> AudioResponse \<times> error option" where
  "sendRequest e req v response =
     (case transport e req of
        Inl err \<Rightarrow> (response, Some err)
      | Inr body \<Rightarrow>
          (case v of
             ResponsePtr \<Rightarrow>
               (case json_Decode e body of
                  Inl err \<Rightarrow> (response, Some err)
                | Inr decoded \<Rightarrow> (decoded, None))
           | TextPtr \<Rightarrow> (response\<lparr>Text := body\<rparr>, None)))"

text \<open>
  Lines 62 to 90. The form builder starts on an empty buffer, so the run starts with no
  event. The body of the request is what the form builder calls wrote.
\<close>

definition callAudioAPI ::
  "env \<Rightarrow> AudioRequest \<Rightarrow> string \<Rightarrow> (AudioResponse \<times> error option) go \<times> event list" where
  "callAudioAPI e request endpointSuffix =
     (case audioMultipartForm e request [] of
        (Panic, tr) \<Rightarrow> (Panic, tr)
      | (Return (Some err), tr) \<Rightarrow> (Return (AudioResponse_zero, Some err), tr)
      | (Return None, tr) \<Rightarrow>
          (let urlSuffix = ''/audio/'' @ endpointSuffix;
               url = fullURL e urlSuffix;
               tr1 = tr @ [NewRequest ''POST'' url]
           in case NewRequestWithContext e ''POST'' url of
                Some err \<Rightarrow> (Return (AudioResponse_zero, Some err), tr1)
              | None \<Rightarrow>
                  (let req = \<lparr>Method = ''POST'', URL = url,
                               ContentType = formDataContentType e (filter is_form_call tr),
                               Body = filter is_form_call tr\<rparr>;
                       v = (if HasJSONResponse request then ResponsePtr else TextPtr);
                       tr2 = tr1 @ [SendRequest ''POST'' url v]
                   in case sendRequest e req v AudioResponse_zero of
                        (response, Some err) \<Rightarrow> (Return (AudioResponse_zero, Some err), tr2)
                      | (response, None) \<Rightarrow> (Return (response, None), tr2))))"

definition CreateTranscription ::
  "env \<Rightarrow> AudioRequest \<Rightarrow> (AudioResponse \<times> error option) go \<times> event list" where
  "CreateTranscription e request = callAudioAPI e request ''transcriptions''"

definition CreateTranslation ::
  "env \<Rightarrow> AudioRequest \<Rightarrow> (AudioResponse \<times> error option) go \<times> event list" where
  "CreateTranslation e request = callAudioAPI e request ''translations''"

section \<open>The assembly as a list of steps\<close>

text \<open>
  A step is a form builder call together with the prefix that wraps its error
  (\<open>None\<close>: the error is returned as it is). Running a list of steps stops at the
  first call that fails.
\<close>

fun run :: "env \<Rightarrow> (event \<times> string option) list \<Rightarrow> event list \<Rightarrow> error option \<times> event list" where
  "run e [] tr = (None, tr)"
| "run e ((c, p) # cs) tr =
     (case builder e tr c of
        Some err \<Rightarrow> (Some (case p of None \<Rightarrow> err | Some pre \<Rightarrow> Errorf pre err), tr @ [c])
      | None \<Rightarrow> run e cs (tr @ [c]))"

definition field_steps :: "AudioRequest \<Rightarrow> (event \<times> string option) list" where
  "field_steps r =
     [(WriteField ''model'' (Model r), Some ''writing model name: '')] @
     (if Prompt r \<noteq> [] then [(WriteField ''prompt'' (Prompt r), Some ''writing prompt: '')]
      else []) @
     (if Format r \<noteq> []
      then [(WriteField ''response_format'' (Format r), Some ''writing format: '')]
      else []) @
     (if f32_ne_zero (Temperature r)
      then [(WriteField ''temperature'' (Sprintf_2f (Temperature r)),
             Some ''writing temperature: '')]
      else []) @
     (if Language r \<noteq> [] then [(WriteField ''language'' (Language r), Some ''writing language: '')]
      else []) @
     [(BuilderClose, None)]"

text \<open>
  Whether the step \<open>c\<close>, taken after the events \<open>h\<close>, fails: opening the file, or a call
  of the form builder. Closing the file reports nothing.
\<close>

definition step_fails :: "env \<Rightarrow> event list \<Rightarrow> event \<Rightarrow> bool" where
  "step_fails e h c =
     (if is_form_call c then builder e h c \<noteq> None
      else (case c of OsOpen p \<Rightarrow> os_Open e p \<noteq> None | _ \<Rightarrow> False))"

text \<open>The name of the form field that an event writes, if it writes one.\<close>

fun field_name :: "event \<Rightarrow> string option" where
  "field_name (CreateFormFile n f) = Some n"
| "field_name (CreateFormFileFromBytes n fn bs) = Some n"
| "field_name (WriteField k v) = Some k"
| "field_name _ = None"

section \<open>Concrete environments and requests\<close>

text \<open>The reply \<open>{"text":"hello"}\<close>.\<close>

definition hello_json :: string where
  "hello_json =
     [CHR ''{'', CHR 0x22] @ ''text'' @ [CHR 0x22, CHR '':'', CHR 0x22] @ ''hello'' @
     [CHR 0x22, CHR ''}'']"

text \<open>
  An environment in which nothing fails: every file opens, every form builder call
  succeeds, and the server answers \<open>hello_json\<close>, which is the only body that the
  decoder accepts.
\<close>

definition env_ok :: env where
  "env_ok =
     \<lparr>os_Open = (\<lambda>p. None),
      builder = (\<lambda>h c. None),
      formDataContentType = (\<lambda>h. ''multipart/form-data; boundary=b''),
      fullURL = (\<lambda>suffix. ''https://api.openai.com/v1'' @ suffix),
      NewRequestWithContext = (\<lambda>m u. None),
      transport = (\<lambda>req. Inr hello_json),
      json_Decode = (\<lambda>body. if body = hello_json then Inr \<lparr>Text = ''hello''\<rparr>
                             else Inl (New ''invalid character''))\<rparr>"

text \<open>The same environment with a form builder that fails on the call \<open>c\<close>.\<close>

definition env_failing :: "event \<Rightarrow> env" where
  "env_failing c =
     env_ok\<lparr>builder := (\<lambda>h x. if x = c then Some (New ''short write'') else None)\<rparr>"

text \<open>The request \<open>{Model: "whisper-1"}\<close>, and the same with a path.\<close>

definition req_none :: AudioRequest where
  "req_none =
     \<lparr>Model = ''whisper-1'', FilePath = [], FileBytes = None, FileName = None,
      Prompt = [], Temperature = 0, Language = [], Format = []\<rparr>"

definition req_path :: AudioRequest where
  "req_path = req_none\<lparr>FilePath := ''a.wav''\<rparr>"

text \<open>
  A request with a path and every optional field: prompt, temperature 0.5 (the bit
  pattern \<open>0x3F000000\<close>), language, and the format \<open>srt\<close>.
\<close>

definition req_full :: AudioRequest where
  "req_full =
     req_path\<lparr>Prompt := ''English'', Temperature := 0x3F000000, Language := ''en'',
              Format := ''srt''\<rparr>"

section \<open>Properties of the building blocks\<close>

lemma Contains_dot: "Contains s ''.'' = (CHR ''.'' \<in> set s)"
  by (induction s) auto

text \<open>The unrolled code of lines 131 to 169 runs the list of steps \<open>field_steps\<close>.\<close>

lemma writeFields_run: "writeFields e r tr = run e (field_steps r) tr"
  by (cases "Prompt r = []"; cases "Format r = []"; cases "f32_ne_zero (Temperature r)";
      cases "Language r = []";
      simp add: writeFields_def field_steps_def call_def split: option.split)

text \<open>A run only appends to the events, and what it appends is a prefix of its steps.\<close>

lemma run_trace: "\<exists>k\<le>length cs. snd (run e cs tr) = tr @ map fst (take k cs)"
proof (induction cs arbitrary: tr)
  case Nil
  then show ?case by simp
next
  case (Cons a cs)
  obtain c p where a: "a = (c, p)" by (cases a)
  show ?case
  proof (cases "builder e tr c")
    case None
    from Cons.IH [of "tr @ [c]"] obtain k where
      "k \<le> length cs" "snd (run e cs (tr @ [c])) = (tr @ [c]) @ map fst (take k cs)" by blast
    then show ?thesis using None a by (intro exI [of _ "Suc k"]) simp
  next
    case (Some err)
    then show ?thesis using a by (intro exI [of _ "Suc 0"]) simp
  qed
qed

lemma run_None: "fst (run e cs tr) = None \<Longrightarrow> snd (run e cs tr) = tr @ map fst cs"
proof (induction cs arbitrary: tr)
  case Nil
  then show ?case by simp
next
  case (Cons a cs)
  obtain c p where a: "a = (c, p)" by (cases a)
  show ?case using Cons a by (cases "builder e tr c") (auto split: option.splits)
qed

text \<open>After a call that fails no further call is made, and the run reports an error.\<close>

lemma run_short:
  "snd (run e cs tr) = tr @ pre @ c # post \<Longrightarrow> builder e (tr @ pre) c \<noteq> None \<Longrightarrow>
     post = [] \<and> fst (run e cs tr) \<noteq> None"
proof (induction cs arbitrary: tr pre)
  case Nil
  then show ?case by simp
next
  case (Cons a cs)
  obtain c' p where a: "a = (c', p)" by (cases a)
  show ?case
  proof (cases "builder e tr c'")
    case (Some err)
    with Cons.prems a have "tr @ [c'] = tr @ pre @ c # post" by simp
    then have "pre @ c # post = [c']" by simp
    then have "post = []" by (cases pre) auto
    then show ?thesis using Some a by simp
  next
    case None
    with Cons.prems a have eq: "snd (run e cs (tr @ [c'])) = tr @ pre @ c # post" by simp
    from run_trace [of cs e "tr @ [c']"] obtain k where
      k: "snd (run e cs (tr @ [c'])) = (tr @ [c']) @ map fst (take k cs)" by blast
    have "pre \<noteq> []"
    proof
      assume "pre = []"
      with eq k have "c = c'" by simp
      with Cons.prems(2) \<open>pre = []\<close> None show False by simp
    qed
    then obtain x pre' where pre: "pre = x # pre'" by (cases pre) auto
    with eq k have "x = c'" by simp
    with eq pre have "snd (run e cs (tr @ [c'])) = (tr @ [c']) @ pre' @ c # post" by simp
    moreover from Cons.prems(2) pre \<open>x = c'\<close>
    have "builder e ((tr @ [c']) @ pre') c \<noteq> None" by simp
    ultimately have "post = [] \<and> fst (run e cs (tr @ [c'])) \<noteq> None" by (rule Cons.IH)
    then show ?thesis using None a by simp
  qed
qed

text \<open>A run that reports an error ends with a call that failed.\<close>

lemma run_Some:
  "fst (run e cs tr) = Some err \<Longrightarrow>
     \<exists>pre c. snd (run e cs tr) = tr @ pre @ [c] \<and> builder e (tr @ pre) c \<noteq> None \<and>
       c \<in> fst ` set cs"
proof (induction cs arbitrary: tr)
  case Nil
  then show ?case by simp
next
  case (Cons a cs)
  obtain c' p where a: "a = (c', p)" by (cases a)
  show ?case
  proof (cases "builder e tr c'")
    case (Some err')
    then show ?thesis using a by (intro exI [of _ "[]"] exI [of _ c']) simp
  next
    case None
    with Cons.prems a have "fst (run e cs (tr @ [c'])) = Some err" by simp
    from Cons.IH [OF this] obtain pre c where
      "snd (run e cs (tr @ [c'])) = (tr @ [c']) @ pre @ [c]"
      "builder e ((tr @ [c']) @ pre) c \<noteq> None" "c \<in> fst ` set cs"
      by blast
    then show ?thesis using None a by (intro exI [of _ "c' # pre"] exI [of _ c]) simp
  qed
qed

section \<open>Failures of validation\<close>

lemma amf_no_source:
  "FilePath r = [] \<Longrightarrow> FileBytes r = None \<Longrightarrow>
     audioMultipartForm e r tr =
       (Return (Some (New ''either FilePath or FileBytes should be specified'')), tr)"
  by (simp add: audioMultipartForm_def)

lemma amf_bad_name:
  "FilePath r = [] \<Longrightarrow> FileBytes r \<noteq> None \<Longrightarrow>
   FileName r = None \<or> (\<exists>n. FileName r = Some n \<and> CHR ''.'' \<notin> set n) \<Longrightarrow>
     audioMultipartForm e r tr =
       (Return (Some (New
          ''FileName with correct extension is required while FileBytes is used'')), tr)"
  by (auto simp add: audioMultipartForm_def deref_def Contains_dot)

text \<open>
  C2, as amended. A request with neither a path nor bytes fails with the error
  \<open>either FilePath or FileBytes should be specified\<close>; \<open>callAudioAPI\<close> returns the zero
  response with that error, and the run has no event at all: no file is opened, no form
  builder call is made, no HTTP request is built or sent.
\<close>

theorem no_source_fails_before_http:
  "FilePath r = [] \<Longrightarrow> FileBytes r = None \<Longrightarrow>
     callAudioAPI e r endpointSuffix =
       (Return (AudioResponse_zero,
                Some (New ''either FilePath or FileBytes should be specified'')), [])"
  by (simp add: callAudioAPI_def amf_no_source)

theorem no_source_fails_before_http_witness:
  "FilePath req_none = [] \<and> FileBytes req_none = None \<and>
   callAudioAPI env_ok req_none ''transcriptions'' =
     (Return (AudioResponse_zero,
              Some (New ''either FilePath or FileBytes should be specified'')), [])"
  using no_source_fails_before_http [of req_none env_ok "''transcriptions''"]
  by (simp add: req_none_def)

text \<open>
  C2 as stated gives the message as \<open>either path or bytes should be specified\<close>. For
  the request \<open>{Model: "whisper-1"}\<close> the code returns another message.
\<close>

theorem no_source_message_counterexample:
  "callAudioAPI env_ok req_none ''transcriptions'' =
     (Return (AudioResponse_zero,
              Some (New ''either FilePath or FileBytes should be specified'')), []) \<and>
   Error (New ''either FilePath or FileBytes should be specified'') \<noteq>
     ''either path or bytes should be specified''"
  by (simp add: callAudioAPI_def audioMultipartForm_def req_none_def)

text \<open>
  C3. A request with no path, with bytes, and with a file name that has no \<open>.\<close> fails
  with a validation error. The assembly returns the events it was given, so nothing was
  written to the form, and \<open>callAudioAPI\<close> ends with no event.
\<close>

theorem bytes_without_extension_fails:
  "FilePath r = [] \<Longrightarrow> FileBytes r \<noteq> None \<Longrightarrow> FileName r = Some name \<Longrightarrow>
   CHR ''.'' \<notin> set name \<Longrightarrow>
     audioMultipartForm e r tr =
       (Return (Some (New
          ''FileName with correct extension is required while FileBytes is used'')), tr) \<and>
     callAudioAPI e r endpointSuffix =
       (Return (AudioResponse_zero, Some (New
          ''FileName with correct extension is required while FileBytes is used'')), [])"
  by (simp add: amf_bad_name callAudioAPI_def)

theorem bytes_without_extension_fails_witness:
  "FilePath (req_none\<lparr>FileBytes := Some [1, 2, 3], FileName := Some ''clip''\<rparr>) = [] \<and>
   FileBytes (req_none\<lparr>FileBytes := Some [1, 2, 3], FileName := Some ''clip''\<rparr>) \<noteq> None \<and>
   FileName (req_none\<lparr>FileBytes := Some [1, 2, 3], FileName := Some ''clip''\<rparr>) = Some ''clip'' \<and>
   CHR ''.'' \<notin> set ''clip'' \<and>
   audioMultipartForm env_ok
       (req_none\<lparr>FileBytes := Some [1, 2, 3], FileName := Some ''clip''\<rparr>) [] =
     (Return (Some (New
        ''FileName with correct extension is required while FileBytes is used'')), []) \<and>
   callAudioAPI env_ok
       (req_none\<lparr>FileBytes := Some [1, 2, 3], FileName := Some ''clip''\<rparr>) ''transcriptions'' =
     (Return (AudioResponse_zero, Some (New
        ''FileName with correct extension is required while FileBytes is used'')), [])"
  using bytes_without_extension_fails
    [of "req_none\<lparr>FileBytes := Some [1, 2, 3], FileName := Some ''clip''\<rparr>" "''clip''"
        env_ok "[]" "''transcriptions''"]
  by (simp add: req_none_def)

section \<open>The assembly in terms of its steps\<close>

lemma amf_open_fail:
  "FilePath r \<noteq> [] \<Longrightarrow> os_Open e (FilePath r) = Some err \<Longrightarrow>
     audioMultipartForm e r tr =
       (Return (Some (Errorf ''opening audio file: '' err)), tr @ [OsOpen (FilePath r)])"
  by (simp add: audioMultipartForm_def)

lemma amf_path:
  "FilePath r \<noteq> [] \<Longrightarrow> os_Open e (FilePath r) = None \<Longrightarrow>
     audioMultipartForm e r tr =
       (Return (fst (run e ((CreateFormFile ''file'' (File (FilePath r)),
                             Some ''creating form file: '') # field_steps r)
                       (tr @ [OsOpen (FilePath r)]))),
        snd (run e ((CreateFormFile ''file'' (File (FilePath r)),
                     Some ''creating form file: '') # field_steps r)
               (tr @ [OsOpen (FilePath r)])) @ [FileClose (File (FilePath r))])"
  by (simp add: audioMultipartForm_def writeFields_run call_def Let_def case_prod_beta
           split: option.split)

lemma amf_bytes:
  "FilePath r = [] \<Longrightarrow> FileBytes r = Some b \<Longrightarrow> FileName r = Some n \<Longrightarrow>
   CHR ''.'' \<in> set n \<Longrightarrow>
     audioMultipartForm e r tr =
       (Return (fst (run e ((CreateFormFileFromBytes ''file'' n b,
                             Some ''creating form bytes: '') # field_steps r) tr)),
        snd (run e ((CreateFormFileFromBytes ''file'' n b,
                     Some ''creating form bytes: '') # field_steps r) tr))"
  by (simp add: audioMultipartForm_def writeFields_run call_def deref_def Contains_dot
           Let_def case_prod_beta split: option.split)

text \<open>The five ways through the choice of the source.\<close>

lemma amf_cases:
  assumes "FilePath r = [] \<Longrightarrow> FileBytes r = None \<Longrightarrow> P"
    and "FilePath r = [] \<Longrightarrow> FileBytes r \<noteq> None \<Longrightarrow>
         FileName r = None \<or> (\<exists>n. FileName r = Some n \<and> CHR ''.'' \<notin> set n) \<Longrightarrow> P"
    and "\<And>err. FilePath r \<noteq> [] \<Longrightarrow> os_Open e (FilePath r) = Some err \<Longrightarrow> P"
    and "FilePath r \<noteq> [] \<Longrightarrow> os_Open e (FilePath r) = None \<Longrightarrow> P"
    and "\<And>n b. FilePath r = [] \<Longrightarrow> FileBytes r = Some b \<Longrightarrow> FileName r = Some n \<Longrightarrow>
         CHR ''.'' \<in> set n \<Longrightarrow> P"
  shows P
proof (cases "FilePath r = []")
  case True
  show ?thesis
  proof (cases "FileBytes r")
    case None
    with True assms(1) show ?thesis by simp
  next
    case (Some b)
    show ?thesis
    proof (cases "FileName r")
      case None
      with True Some assms(2) show ?thesis by simp
    next
      case (Some n)
      with True \<open>FileBytes r = Some b\<close> assms(2) [OF True] assms(5) [OF True]
      show ?thesis by (cases "CHR ''.'' \<in> set n") auto
    qed
  qed
next
  case False
  with assms(3,4) show ?thesis by (cases "os_Open e (FilePath r)") auto
qed

lemma field_steps_form_calls: "list_all is_form_call (map fst (field_steps r))"
  by (simp add: field_steps_def)

lemma amf_no_panic: "fst (audioMultipartForm e r tr) \<noteq> Panic"
  by (rule amf_cases [where r = r and e = e]) (simp_all add: amf_no_source amf_bad_name amf_open_fail amf_path amf_bytes)

text \<open>The definitions that evaluate a run on a concrete request and environment.\<close>

lemmas eval_defs =
  audioMultipartForm_def writeFields_def call_def callAudioAPI_def sendRequest_def
  HasJSONResponse_def AudioResponseFormatJSON_def AudioResponse_zero_def deref_def Let_def
  env_failing_def env_ok_def req_path_def req_none_def req_full_def

text \<open>The definitions that evaluate a \<open>float32\<close> given by its bit pattern.\<close>

lemmas f32_defs =
  Sprintf_2f_def IsNaN_def IsInf_def f32_ne_zero_def f32_sign_def f32_exp_def f32_mant_def
  f32_num_def f32_den_def round_half_even_def digit_def


section \<open>The file name and the file handle\<close>

text \<open>
  C9. A request with no path, with bytes, and with no file name at all fails with the
  validation error of a file name without extension, whatever such name is taken for
  the comparison, and returns the events it was given: no form builder call is made.
  The assembly returns, it does not panic: the nil \<open>FileName\<close> is not dereferenced.
\<close>

theorem nil_file_name_fails_without_panic:
  "FilePath r = [] \<Longrightarrow> FileBytes r \<noteq> None \<Longrightarrow> FileName r = None \<Longrightarrow>
     audioMultipartForm e r tr =
       (Return (Some (New
          ''FileName with correct extension is required while FileBytes is used'')), tr) \<and>
     fst (audioMultipartForm e r tr) \<noteq> Panic \<and>
     (\<forall>name. CHR ''.'' \<notin> set name \<longrightarrow>
        audioMultipartForm e (r\<lparr>FileName := Some name\<rparr>) tr = audioMultipartForm e r tr)"
  by (simp add: amf_bad_name)

theorem nil_file_name_fails_without_panic_witness:
  "FilePath (req_none\<lparr>FileBytes := Some [1, 2, 3]\<rparr>) = [] \<and>
   FileBytes (req_none\<lparr>FileBytes := Some [1, 2, 3]\<rparr>) \<noteq> None \<and>
   FileName (req_none\<lparr>FileBytes := Some [1, 2, 3]\<rparr>) = None \<and>
   audioMultipartForm env_ok (req_none\<lparr>FileBytes := Some [1, 2, 3]\<rparr>) [] =
     (Return (Some (New
        ''FileName with correct extension is required while FileBytes is used'')), []) \<and>
   audioMultipartForm env_ok (req_none\<lparr>FileBytes := Some [1, 2, 3], FileName := Some ''clip''\<rparr>) [] =
     audioMultipartForm env_ok (req_none\<lparr>FileBytes := Some [1, 2, 3]\<rparr>) []"
  using nil_file_name_fails_without_panic
    [of "req_none\<lparr>FileBytes := Some [1, 2, 3]\<rparr>" env_ok "[]"]
  by (simp add: req_none_def)

text \<open>
  C8. When the request has a path and the file opens, the assembly always returns
  (with a result \<open>res\<close> that is success or any error), and its events are: the open,
  then form builder calls only, then the closing of the opened file as the last event.
  The file is closed exactly once, on every way out.
\<close>

theorem path_file_closed_on_every_exit:
  assumes "FilePath r \<noteq> []" and "os_Open e (FilePath r) = None"
  shows "\<exists>res calls.
           audioMultipartForm e r tr =
             (Return res,
              tr @ OsOpen (FilePath r) # calls @ [FileClose (File (FilePath r))]) \<and>
           list_all is_form_call calls"
proof -
  let ?cs = "(CreateFormFile ''file'' (File (FilePath r)), Some ''creating form file: '') #
             field_steps r"
  let ?tr1 = "tr @ [OsOpen (FilePath r)]"
  from run_trace [of ?cs e ?tr1] obtain k where
    k: "snd (run e ?cs ?tr1) = ?tr1 @ map fst (take k ?cs)" by blast
  have "list_all is_form_call (map fst ?cs)"
    using field_steps_form_calls [of r] by simp
  then have "list_all is_form_call (map fst (take k ?cs))"
    by (metis list_all_append append_take_drop_id map_append)
  moreover have "audioMultipartForm e r tr =
      (Return (fst (run e ?cs ?tr1)),
       tr @ OsOpen (FilePath r) # map fst (take k ?cs) @ [FileClose (File (FilePath r))])"
    using amf_path [OF assms, of tr] k by simp
  ultimately show ?thesis by blast
qed

theorem path_file_closed_on_every_exit_witness:
  "FilePath req_path \<noteq> [] \<and>
   os_Open (env_failing (WriteField ''model'' ''whisper-1'')) (FilePath req_path) = None \<and>
   (\<exists>res calls.
      audioMultipartForm (env_failing (WriteField ''model'' ''whisper-1'')) req_path [] =
        (Return res, [] @ OsOpen (FilePath req_path) # calls @
                     [FileClose (File (FilePath req_path))]) \<and>
      list_all is_form_call calls) \<and>
   audioMultipartForm (env_failing (WriteField ''model'' ''whisper-1'')) req_path [] =
     (Return (Some (Errorf ''writing model name: '' (New ''short write''))),
      [OsOpen ''a.wav'', CreateFormFile ''file'' (File ''a.wav''),
       WriteField ''model'' ''whisper-1'', FileClose (File ''a.wav'')])"
proof -
  have h1: "FilePath req_path \<noteq> []" by (simp add: req_path_def req_none_def)
  have h2: "os_Open (env_failing (WriteField ''model'' ''whisper-1'')) (FilePath req_path) = None"
    by (simp add: env_failing_def env_ok_def)
  have ev: "audioMultipartForm (env_failing (WriteField ''model'' ''whisper-1'')) req_path [] =
     (Return (Some (Errorf ''writing model name: '' (New ''short write''))),
      [OsOpen ''a.wav'', CreateFormFile ''file'' (File ''a.wav''),
       WriteField ''model'' ''whisper-1'', FileClose (File ''a.wav'')])"
    by (simp add: eval_defs)
  from path_file_closed_on_every_exit [OF h1 h2, of "[]"] h1 h2 ev show ?thesis by blast
qed

section \<open>Both sources given\<close>

lemma field_steps_ignores_bytes:
  "field_steps (r\<lparr>FileBytes := fb, FileName := fn\<rparr>) = field_steps r"
  by (simp add: field_steps_def)

lemma amf_path_ignores_bytes:
  "FilePath r \<noteq> [] \<Longrightarrow>
     audioMultipartForm e (r\<lparr>FileBytes := fb, FileName := fn\<rparr>) tr = audioMultipartForm e r tr"
proof (cases "os_Open e (FilePath r)")
  case None
  assume p: "FilePath r \<noteq> []"
  then show ?thesis
    using amf_path [of r e tr] amf_path [of "r\<lparr>FileBytes := fb, FileName := fn\<rparr>" e tr] None
    by (simp add: field_steps_ignores_bytes)
next
  case (Some err)
  assume p: "FilePath r \<noteq> []"
  then show ?thesis
    using amf_open_fail [of r e err tr]
      amf_open_fail [of "r\<lparr>FileBytes := fb, FileName := fn\<rparr>" e err tr] Some
    by simp
qed

text \<open>An error of the assembly that is not a validation error comes from a step that failed.\<close>

lemma amf_error_has_failing_step:
  assumes "fst (audioMultipartForm e r tr) = Return (Some err)"
    and "FilePath r \<noteq> [] \<or>
         (\<exists>n b. FileBytes r = Some b \<and> FileName r = Some n \<and> CHR ''.'' \<in> set n)"
  shows "\<exists>pre c post. snd (audioMultipartForm e r tr) = tr @ pre @ c # post \<and>
           step_fails e (tr @ pre) c"
proof (rule amf_cases [where r = r and e = e])
  assume "FilePath r = []" "FileBytes r = None"
  with assms(2) show ?thesis by simp
next
  assume "FilePath r = []" "FileBytes r \<noteq> None"
    "FileName r = None \<or> (\<exists>n. FileName r = Some n \<and> CHR ''.'' \<notin> set n)"
  with assms(2) show ?thesis by auto
next
  fix err' assume h: "FilePath r \<noteq> []" "os_Open e (FilePath r) = Some err'"
  then have "snd (audioMultipartForm e r tr) = tr @ [] @ OsOpen (FilePath r) # []"
    by (simp add: amf_open_fail)
  moreover from h have "step_fails e (tr @ []) (OsOpen (FilePath r))"
    by (simp add: step_fails_def)
  ultimately show ?thesis by blast
next
  assume h: "FilePath r \<noteq> []" "os_Open e (FilePath r) = None"
  let ?cs = "(CreateFormFile ''file'' (File (FilePath r)), Some ''creating form file: '') #
             field_steps r"
  let ?tr1 = "tr @ [OsOpen (FilePath r)]"
  from assms(1) h have "fst (run e ?cs ?tr1) = Some err"
    by (simp add: amf_path del: run.simps)
  from run_Some [OF this] obtain pre c where
    pc: "snd (run e ?cs ?tr1) = ?tr1 @ pre @ [c]" "builder e (?tr1 @ pre) c \<noteq> None"
      "c \<in> fst ` set ?cs" by blast
  from pc(3) have "is_form_call c"
    using field_steps_form_calls [of r] by (auto simp: list_all_iff)
  with pc(2) have "step_fails e (tr @ (OsOpen (FilePath r) # pre)) c"
    by (simp add: step_fails_def)
  moreover have "snd (audioMultipartForm e r tr) =
      tr @ (OsOpen (FilePath r) # pre) @ c # [FileClose (File (FilePath r))]"
    using h pc(1) by (simp add: amf_path del: run.simps)
  ultimately show ?thesis by blast
next
  fix n b assume h: "FilePath r = []" "FileBytes r = Some b" "FileName r = Some n"
    "CHR ''.'' \<in> set n"
  let ?cs = "(CreateFormFileFromBytes ''file'' n b, Some ''creating form bytes: '') #
             field_steps r"
  from assms(1) h have "fst (run e ?cs tr) = Some err"
    by (simp add: amf_bytes del: run.simps)
  from run_Some [OF this] obtain pre c where
    pc: "snd (run e ?cs tr) = tr @ pre @ [c]" "builder e (tr @ pre) c \<noteq> None"
      "c \<in> fst ` set ?cs" by blast
  from pc(3) have "is_form_call c"
    using field_steps_form_calls [of r] by (auto simp: list_all_iff)
  with pc(2) have "step_fails e (tr @ pre) c" by (simp add: step_fails_def)
  moreover have "snd (audioMultipartForm e r tr) = tr @ pre @ c # []"
    using h pc(1) by (simp add: amf_bytes del: run.simps)
  ultimately show ?thesis by blast
qed

text \<open>
  C7. When the request has both a path and bytes, the assembly does exactly what it
  does for the same request without bytes and without file name: they are ignored.
  When the file opens, the first form builder call is the file field made from the
  opened path. No validation error is raised: an error of the assembly comes from a
  step (the open, or a form builder call) that failed.
\<close>

theorem path_takes_precedence_over_bytes:
  assumes "FilePath r \<noteq> []" and "FileBytes r \<noteq> None"
  shows "audioMultipartForm e r tr =
           audioMultipartForm e (r\<lparr>FileBytes := None, FileName := None\<rparr>) tr \<and>
         (os_Open e (FilePath r) = None \<longrightarrow>
            (\<exists>res calls. audioMultipartForm e r tr =
               (Return res,
                tr @ OsOpen (FilePath r) # CreateFormFile ''file'' (File (FilePath r)) # calls))) \<and>
         (\<forall>err. fst (audioMultipartForm e r tr) = Return (Some err) \<longrightarrow>
            (\<exists>pre c post. snd (audioMultipartForm e r tr) = tr @ pre @ c # post \<and>
               step_fails e (tr @ pre) c))"
proof (intro conjI impI allI)
  show "audioMultipartForm e r tr =
        audioMultipartForm e (r\<lparr>FileBytes := None, FileName := None\<rparr>) tr"
    using assms(1) by (simp add: amf_path_ignores_bytes)
next
  assume "os_Open e (FilePath r) = None"
  with assms(1) show "\<exists>res calls. audioMultipartForm e r tr =
      (Return res, tr @ OsOpen (FilePath r) # CreateFormFile ''file'' (File (FilePath r)) # calls)"
    by (cases "builder e (tr @ [OsOpen (FilePath r)]) (CreateFormFile ''file'' (File (FilePath r)))")
       (use run_trace [of "field_steps r" e
              "tr @ [OsOpen (FilePath r), CreateFormFile ''file'' (File (FilePath r))]"]
         in \<open>auto simp add: amf_path\<close>)
next
  fix err assume "fst (audioMultipartForm e r tr) = Return (Some err)"
  then show "\<exists>pre c post. snd (audioMultipartForm e r tr) = tr @ pre @ c # post \<and>
      step_fails e (tr @ pre) c"
    using assms(1) by (intro amf_error_has_failing_step) auto
qed


theorem path_takes_precedence_over_bytes_witness:
  "FilePath (req_path\<lparr>FileBytes := Some [1, 2, 3], FileName := Some ''clip''\<rparr>) \<noteq> [] \<and>
   FileBytes (req_path\<lparr>FileBytes := Some [1, 2, 3], FileName := Some ''clip''\<rparr>) \<noteq> None \<and>
   audioMultipartForm env_ok
       (req_path\<lparr>FileBytes := Some [1, 2, 3], FileName := Some ''clip''\<rparr>) [] =
     audioMultipartForm env_ok
       (req_path\<lparr>FileBytes := Some [1, 2, 3], FileName := Some ''clip'',
                 FileBytes := None, FileName := None\<rparr>) [] \<and>
   audioMultipartForm env_ok
       (req_path\<lparr>FileBytes := Some [1, 2, 3], FileName := Some ''clip''\<rparr>) [] =
     (Return None,
      [OsOpen ''a.wav'', CreateFormFile ''file'' (File ''a.wav''),
       WriteField ''model'' ''whisper-1'', BuilderClose, FileClose (File ''a.wav'')])"
proof -
  let ?r = "req_path\<lparr>FileBytes := Some [1, 2, 3], FileName := Some ''clip''\<rparr>"
  have h1: "FilePath ?r \<noteq> []" by (simp add: req_path_def req_none_def)
  have h2: "FileBytes ?r \<noteq> None" by simp
  have ev: "audioMultipartForm env_ok ?r [] =
     (Return None,
      [OsOpen ''a.wav'', CreateFormFile ''file'' (File ''a.wav''),
       WriteField ''model'' ''whisper-1'', BuilderClose, FileClose (File ''a.wav'')])"
    by (simp add: eval_defs f32_ne_zero_def f32_exp_def f32_mant_def)
  from path_takes_precedence_over_bytes [OF h1 h2, of env_ok "[]"] h1 h2 ev
  show ?thesis by simp
qed

section \<open>The events of an assembly\<close>

lemma form_call_not_http: "is_form_call c \<Longrightarrow> \<not> is_http c"
  by (cases c) simp_all

lemma run_calls:
  assumes "list_all is_form_call (map fst cs)"
  shows "\<exists>calls. snd (run e cs tr) = tr @ calls \<and> list_all is_form_call calls"
proof -
  from run_trace [of cs e tr] obtain k where
    k: "snd (run e cs tr) = tr @ map fst (take k cs)" by blast
  from assms have "list_all is_form_call (map fst (take k cs))"
    by (metis list_all_append append_take_drop_id map_append)
  with k show ?thesis by blast
qed

text \<open>The events of an assembly: form builder calls, inside an open and a close if any.\<close>

lemma amf_trace_shape:
  "\<exists>calls. list_all is_form_call calls \<and>
     (snd (audioMultipartForm e r tr) = tr @ calls \<or>
      snd (audioMultipartForm e r tr) = tr @ [OsOpen (FilePath r)] \<or>
      snd (audioMultipartForm e r tr) =
        tr @ OsOpen (FilePath r) # calls @ [FileClose (File (FilePath r))])"
proof (rule amf_cases [where r = r and e = e])
  assume "FilePath r = []" "FileBytes r = None"
  then show ?thesis by (intro exI [of _ "[]"]) (simp add: amf_no_source)
next
  assume "FilePath r = []" "FileBytes r \<noteq> None"
    "FileName r = None \<or> (\<exists>n. FileName r = Some n \<and> CHR ''.'' \<notin> set n)"
  then show ?thesis by (intro exI [of _ "[]"]) (simp add: amf_bad_name)
next
  fix err assume "FilePath r \<noteq> []" "os_Open e (FilePath r) = Some err"
  then show ?thesis by (intro exI [of _ "[]"]) (simp add: amf_open_fail)
next
  assume h: "FilePath r \<noteq> []" "os_Open e (FilePath r) = None"
  let ?cs = "(CreateFormFile ''file'' (File (FilePath r)), Some ''creating form file: '') #
             field_steps r"
  have "list_all is_form_call (map fst ?cs)" using field_steps_form_calls [of r] by simp
  from run_calls [OF this, of e "tr @ [OsOpen (FilePath r)]"] obtain calls where
    "snd (run e ?cs (tr @ [OsOpen (FilePath r)])) = (tr @ [OsOpen (FilePath r)]) @ calls"
    "list_all is_form_call calls" by blast
  then show ?thesis using h by (intro exI [of _ calls]) (simp add: amf_path del: run.simps)
next
  fix n b assume h: "FilePath r = []" "FileBytes r = Some b" "FileName r = Some n"
    "CHR ''.'' \<in> set n"
  let ?cs = "(CreateFormFileFromBytes ''file'' n b, Some ''creating form bytes: '') #
             field_steps r"
  have "list_all is_form_call (map fst ?cs)" using field_steps_form_calls [of r] by simp
  from run_calls [OF this, of e tr] obtain calls where
    "snd (run e ?cs tr) = tr @ calls" "list_all is_form_call calls" by blast
  then show ?thesis using h by (intro exI [of _ calls]) (simp add: amf_bytes del: run.simps)
qed

lemma amf_no_http: "\<not> list_ex is_http (snd (audioMultipartForm e r []))"
proof
  assume "list_ex is_http (snd (audioMultipartForm e r []))"
  then obtain x where x: "x \<in> set (snd (audioMultipartForm e r []))" "is_http x"
    by (auto simp add: list_ex_iff)
  from amf_trace_shape [of e r "[]"] obtain calls where
    c: "list_all is_form_call calls"
    "snd (audioMultipartForm e r []) = [] @ calls \<or>
     snd (audioMultipartForm e r []) = [] @ [OsOpen (FilePath r)] \<or>
     snd (audioMultipartForm e r []) =
       [] @ OsOpen (FilePath r) # calls @ [FileClose (File (FilePath r))]" by blast
  from c(2) x(1) have "x \<in> set calls \<or> x = OsOpen (FilePath r) \<or>
      x = FileClose (File (FilePath r))" by auto
  with c(1) x(2) show False by (auto simp add: list_all_iff dest: form_call_not_http)
qed

text \<open>The events of an assembly that succeeds.\<close>

lemma amf_success:
  assumes "audioMultipartForm e r tr = (Return None, tr')"
  shows "(FilePath r \<noteq> [] \<and>
          tr' = tr @ OsOpen (FilePath r) # CreateFormFile ''file'' (File (FilePath r)) #
                map fst (field_steps r) @ [FileClose (File (FilePath r))]) \<or>
         (FilePath r = [] \<and>
          (\<exists>n b. FileName r = Some n \<and> FileBytes r = Some b \<and>
             tr' = tr @ CreateFormFileFromBytes ''file'' n b # map fst (field_steps r)))"
proof (rule amf_cases [where r = r and e = e])
  assume "FilePath r = []" "FileBytes r = None"
  with assms show ?thesis by (simp add: amf_no_source)
next
  assume "FilePath r = []" "FileBytes r \<noteq> None"
    "FileName r = None \<or> (\<exists>n. FileName r = Some n \<and> CHR ''.'' \<notin> set n)"
  with assms show ?thesis by (simp add: amf_bad_name)
next
  fix err assume "FilePath r \<noteq> []" "os_Open e (FilePath r) = Some err"
  with assms show ?thesis by (simp add: amf_open_fail)
next
  assume h: "FilePath r \<noteq> []" "os_Open e (FilePath r) = None"
  let ?cs = "(CreateFormFile ''file'' (File (FilePath r)), Some ''creating form file: '') #
             field_steps r"
  let ?tr1 = "tr @ [OsOpen (FilePath r)]"
  from assms h have "fst (run e ?cs ?tr1) = None"
    and t: "tr' = snd (run e ?cs ?tr1) @ [FileClose (File (FilePath r))]"
    by (simp_all add: amf_path del: run.simps)
  from run_None [OF this(1)] t h show ?thesis by simp
next
  fix n b assume h: "FilePath r = []" "FileBytes r = Some b" "FileName r = Some n"
    "CHR ''.'' \<in> set n"
  let ?cs = "(CreateFormFileFromBytes ''file'' n b, Some ''creating form bytes: '') #
             field_steps r"
  from assms h have "fst (run e ?cs tr) = None" and t: "tr' = snd (run e ?cs tr)"
    by (simp_all add: amf_bytes del: run.simps)
  from run_None [OF this(1)] t h show ?thesis by simp
qed

text \<open>
  C5. When the assembly succeeds, the form builder calls are, in this order: the file
  field \<open>file\<close> (from the opened path, or from the bytes and the file name, which are
  then both present), the field \<open>model\<close>, then \<open>prompt\<close> if the prompt is not empty,
  \<open>response_format\<close> if and only if the format is not empty, \<open>temperature\<close> if the
  temperature is not zero, \<open>language\<close> if the language is not empty, and the closing
  of the writer. The last equation gives the names of the fields alone.
\<close>

theorem form_fields_in_fixed_order:
  assumes "audioMultipartForm e r [] = (Return None, tr)"
  shows "filter is_form_call tr =
           (if FilePath r \<noteq> [] then CreateFormFile ''file'' (File (FilePath r))
            else CreateFormFileFromBytes ''file'' (the (FileName r)) (the (FileBytes r))) #
           WriteField ''model'' (Model r) #
           (if Prompt r \<noteq> [] then [WriteField ''prompt'' (Prompt r)] else []) @
           (if Format r \<noteq> [] then [WriteField ''response_format'' (Format r)] else []) @
           (if f32_ne_zero (Temperature r)
            then [WriteField ''temperature'' (Sprintf_2f (Temperature r))] else []) @
           (if Language r \<noteq> [] then [WriteField ''language'' (Language r)] else []) @
           [BuilderClose] \<and>
         (FilePath r = [] \<longrightarrow> FileName r \<noteq> None \<and> FileBytes r \<noteq> None) \<and>
         List.map_filter field_name tr =
           [''file'', ''model''] @
           (if Prompt r \<noteq> [] then [''prompt''] else []) @
           (if Format r \<noteq> [] then [''response_format''] else []) @
           (if f32_ne_zero (Temperature r) then [''temperature''] else []) @
           (if Language r \<noteq> [] then [''language''] else [])"
  using amf_success [OF assms]
  by (auto simp add: field_steps_def)

section \<open>Runs on concrete requests\<close>

lemma Sprintf_2f_half: "Sprintf_2f 0x3F000000 = ''0.50''"
  by (simp add: f32_defs Itoa.simps Let_def)

lemma req_full_run:
  "audioMultipartForm env_ok req_full [] =
     (Return None,
      [OsOpen ''a.wav'', CreateFormFile ''file'' (File ''a.wav''),
       WriteField ''model'' ''whisper-1'', WriteField ''prompt'' ''English'',
       WriteField ''response_format'' ''srt'', WriteField ''temperature'' ''0.50'',
       WriteField ''language'' ''en'', BuilderClose, FileClose (File ''a.wav'')])"
proof -
  have "f32_ne_zero 0x3F000000" by (simp add: f32_defs)
  then show ?thesis by (simp add: eval_defs Sprintf_2f_half)
qed

theorem form_fields_in_fixed_order_witness:
  "audioMultipartForm env_ok req_full [] =
     (Return None,
      [OsOpen ''a.wav'', CreateFormFile ''file'' (File ''a.wav''),
       WriteField ''model'' ''whisper-1'', WriteField ''prompt'' ''English'',
       WriteField ''response_format'' ''srt'', WriteField ''temperature'' ''0.50'',
       WriteField ''language'' ''en'', BuilderClose, FileClose (File ''a.wav'')]) \<and>
   List.map_filter field_name
     [OsOpen ''a.wav'', CreateFormFile ''file'' (File ''a.wav''),
      WriteField ''model'' ''whisper-1'', WriteField ''prompt'' ''English'',
      WriteField ''response_format'' ''srt'', WriteField ''temperature'' ''0.50'',
      WriteField ''language'' ''en'', BuilderClose, FileClose (File ''a.wav'')] =
     [''file'', ''model'', ''prompt'', ''response_format'', ''temperature'', ''language'']"
proof -
  have nz: "f32_ne_zero (Temperature req_full)"
    by (simp add: req_full_def req_path_def req_none_def f32_defs)
  from form_fields_in_fixed_order [OF req_full_run] nz req_full_run show ?thesis
    by (simp add: req_full_def req_path_def req_none_def)
qed

section \<open>Failing steps\<close>

text \<open>
  C6. Take any run of the assembly, with its result and its events. If a step of it
  fails (the open of the file, or a form builder call: a file write, a field write or
  the closing of the writer), the assembly returns an error, and after the failing step
  nothing follows but the closing of the opened file: no further step is taken. And
  whenever the assembly returns an error, whether from a step or from validation,
  \<open>callAudioAPI\<close> returns the zero response with that error, and its events are those
  of the assembly, with no HTTP request built or sent.
\<close>

theorem failing_step_short_circuits:
  assumes "audioMultipartForm e r [] = (res, tr)"
  shows "(\<forall>pre c post. tr = pre @ c # post \<and> step_fails e pre c \<longrightarrow>
            (\<exists>err. res = Return (Some err)) \<and>
            (post = [] \<or> post = [FileClose (File (FilePath r))])) \<and>
         (\<forall>err. res = Return (Some err) \<longrightarrow>
            callAudioAPI e r endpointSuffix = (Return (AudioResponse_zero, Some err), tr) \<and>
            \<not> list_ex is_http tr)"
proof -
  have sent: "\<forall>err. res = Return (Some err) \<longrightarrow>
      callAudioAPI e r endpointSuffix = (Return (AudioResponse_zero, Some err), tr) \<and>
      \<not> list_ex is_http tr"
    using assms amf_no_http [of e r] by (simp add: callAudioAPI_def)
  have short: "\<forall>pre c post. tr = pre @ c # post \<and> step_fails e pre c \<longrightarrow>
      (\<exists>err. res = Return (Some err)) \<and>
      (post = [] \<or> post = [FileClose (File (FilePath r))])"
  proof (intro allI impI)
    fix pre c post assume "tr = pre @ c # post \<and> step_fails e pre c"
    then have d: "tr = pre @ c # post" and f: "step_fails e pre c" by simp_all
    show "(\<exists>err. res = Return (Some err)) \<and>
          (post = [] \<or> post = [FileClose (File (FilePath r))])"
    proof (rule amf_cases [where r = r and e = e])
      assume "FilePath r = []" "FileBytes r = None"
      with assms d show ?thesis by (simp add: amf_no_source)
    next
      assume "FilePath r = []" "FileBytes r \<noteq> None"
        "FileName r = None \<or> (\<exists>n. FileName r = Some n \<and> CHR ''.'' \<notin> set n)"
      with assms d show ?thesis by (simp add: amf_bad_name)
    next
      fix err assume h: "FilePath r \<noteq> []" "os_Open e (FilePath r) = Some err"
      with assms d have "pre @ c # post = [OsOpen (FilePath r)]"
        and "res = Return (Some (Errorf ''opening audio file: '' err))"
        by (simp_all add: amf_open_fail)
      then show ?thesis by (cases pre) auto
    next
      assume h: "FilePath r \<noteq> []" "os_Open e (FilePath r) = None"
      let ?cs = "(CreateFormFile ''file'' (File (FilePath r)), Some ''creating form file: '') #
                 field_steps r"
      let ?tr1 = "[OsOpen (FilePath r)]"
      let ?f = "FileClose (File (FilePath r))"
      have fc: "list_all is_form_call (map fst ?cs)" using field_steps_form_calls [of r] by simp
      from run_calls [OF fc, of e ?tr1] obtain calls where
        calls: "snd (run e ?cs ?tr1) = ?tr1 @ calls" "list_all is_form_call calls" by blast
      from assms h have res: "res = Return (fst (run e ?cs ?tr1))"
        and tr: "tr = snd (run e ?cs ?tr1) @ [?f]"
        by (simp_all add: amf_path del: run.simps)
      from tr calls(1) d have eq: "pre @ c # post = OsOpen (FilePath r) # calls @ [?f]" by simp
      have "pre \<noteq> []"
      proof
        assume "pre = []"
        with eq have "c = OsOpen (FilePath r)" by simp
        with f h show False by (simp add: step_fails_def)
      qed
      then obtain pre' where pre: "pre = OsOpen (FilePath r) # pre'"
        using eq by (cases pre) auto
      with eq have eq': "pre' @ c # post = calls @ [?f]" by simp
      have "post \<noteq> []"
      proof
        assume "post = []"
        with eq' have "c = ?f" by simp
        with f show False by (simp add: step_fails_def)
      qed
      then obtain post' l where post: "post = post' @ [l]" by (cases post rule: rev_cases) auto
      with eq' have "(pre' @ c # post') @ [l] = calls @ [?f]" by simp
      then have cd: "calls = pre' @ c # post'" and l: "l = ?f" by simp_all
      from cd calls(2) have "is_form_call c" by simp
      with f pre have "builder e (?tr1 @ pre') c \<noteq> None" by (simp add: step_fails_def)
      moreover from calls(1) cd have "snd (run e ?cs ?tr1) = ?tr1 @ pre' @ c # post'" by simp
      ultimately have "post' = [] \<and> fst (run e ?cs ?tr1) \<noteq> None" by (intro run_short)
      with res post l show ?thesis by auto
    next
      fix n b assume h: "FilePath r = []" "FileBytes r = Some b" "FileName r = Some n"
        "CHR ''.'' \<in> set n"
      let ?cs = "(CreateFormFileFromBytes ''file'' n b, Some ''creating form bytes: '') #
                 field_steps r"
      have fc: "list_all is_form_call (map fst ?cs)" using field_steps_form_calls [of r] by simp
      from run_calls [OF fc, of e "[]"] obtain calls where
        calls: "snd (run e ?cs []) = [] @ calls" "list_all is_form_call calls" by blast
      from assms h have res: "res = Return (fst (run e ?cs []))"
        and tr: "tr = snd (run e ?cs [])"
        by (simp_all add: amf_bytes del: run.simps)
      from tr calls(1) d have cd: "calls = pre @ c # post" by simp
      with calls(2) have "is_form_call c" by simp
      with f have "builder e ([] @ pre) c \<noteq> None" by (simp add: step_fails_def)
      moreover from tr d have "snd (run e ?cs []) = [] @ pre @ c # post" by simp
      ultimately have "post = [] \<and> fst (run e ?cs []) \<noteq> None" by (intro run_short)
      with res show ?thesis by auto
    qed
  qed
  from short sent show ?thesis by (rule conjI)
qed

theorem failing_step_short_circuits_witness:
  "audioMultipartForm (env_failing (WriteField ''prompt'' ''English'')) req_full [] =
     (Return (Some (Errorf ''writing prompt: '' (New ''short write''))),
      [OsOpen ''a.wav'', CreateFormFile ''file'' (File ''a.wav''),
       WriteField ''model'' ''whisper-1'', WriteField ''prompt'' ''English'',
       FileClose (File ''a.wav'')]) \<and>
   step_fails (env_failing (WriteField ''prompt'' ''English''))
     [OsOpen ''a.wav'', CreateFormFile ''file'' (File ''a.wav''),
      WriteField ''model'' ''whisper-1''] (WriteField ''prompt'' ''English'') \<and>
   callAudioAPI (env_failing (WriteField ''prompt'' ''English'')) req_full ''translations'' =
     (Return (AudioResponse_zero, Some (Errorf ''writing prompt: '' (New ''short write''))),
      [OsOpen ''a.wav'', CreateFormFile ''file'' (File ''a.wav''),
       WriteField ''model'' ''whisper-1'', WriteField ''prompt'' ''English'',
       FileClose (File ''a.wav'')])"
proof -
  let ?e = "env_failing (WriteField ''prompt'' ''English'')"
  let ?tr = "[OsOpen ''a.wav'', CreateFormFile ''file'' (File ''a.wav''),
      WriteField ''model'' ''whisper-1'', WriteField ''prompt'' ''English'',
      FileClose (File ''a.wav'')]"
  have ev: "audioMultipartForm ?e req_full [] =
     (Return (Some (Errorf ''writing prompt: '' (New ''short write''))), ?tr)"
    by (simp add: eval_defs)
  have sf: "step_fails ?e [OsOpen ''a.wav'', CreateFormFile ''file'' (File ''a.wav''),
      WriteField ''model'' ''whisper-1''] (WriteField ''prompt'' ''English'')"
    by (simp add: step_fails_def env_failing_def env_ok_def)
  from failing_step_short_circuits [OF ev, of "''translations''"] ev sf show ?thesis
    by simp
qed

section \<open>The reply\<close>

text \<open>Every form builder call of an assembly is its file call or one of its field steps.\<close>

lemma amf_form_calls:
  assumes "c \<in> set (snd (audioMultipartForm e r []))" and "is_form_call c"
  shows "c \<in> fst ` set (field_steps r) \<or>
         c = CreateFormFile ''file'' (File (FilePath r)) \<or>
         (\<exists>n b. FileName r = Some n \<and> FileBytes r = Some b \<and>
            c = CreateFormFileFromBytes ''file'' n b)"
proof (rule amf_cases [where r = r and e = e])
  assume "FilePath r = []" "FileBytes r = None"
  with assms show ?thesis by (simp add: amf_no_source)
next
  assume "FilePath r = []" "FileBytes r \<noteq> None"
    "FileName r = None \<or> (\<exists>n. FileName r = Some n \<and> CHR ''.'' \<notin> set n)"
  with assms show ?thesis by (simp add: amf_bad_name)
next
  fix err assume "FilePath r \<noteq> []" "os_Open e (FilePath r) = Some err"
  with assms show ?thesis by (auto simp add: amf_open_fail)
next
  assume h: "FilePath r \<noteq> []" "os_Open e (FilePath r) = None"
  let ?cs = "(CreateFormFile ''file'' (File (FilePath r)), Some ''creating form file: '') #
             field_steps r"
  from run_trace [of ?cs e "[OsOpen (FilePath r)]"] obtain k where
    "snd (run e ?cs [OsOpen (FilePath r)]) = [OsOpen (FilePath r)] @ map fst (take k ?cs)"
    by blast
  with assms h have "c \<in> set (map fst (take k ?cs))"
    by (auto simp add: amf_path simp del: run.simps)
  then obtain p where "(c, p) \<in> set (take k ?cs)" by auto
  then have "(c, p) \<in> set ?cs" by (rule in_set_takeD)
  then show ?thesis by force
next
  fix n b assume h: "FilePath r = []" "FileBytes r = Some b" "FileName r = Some n"
    "CHR ''.'' \<in> set n"
  let ?cs = "(CreateFormFileFromBytes ''file'' n b, Some ''creating form bytes: '') #
             field_steps r"
  from run_trace [of ?cs e "[]"] obtain k where
    "snd (run e ?cs []) = [] @ map fst (take k ?cs)" by blast
  with assms h have "c \<in> set (map fst (take k ?cs))"
    by (auto simp add: amf_bytes simp del: run.simps)
  then obtain p where "(c, p) \<in> set (take k ?cs)" by auto
  then have "(c, p) \<in> set ?cs" by (rule in_set_takeD)
  with h show ?thesis by force
qed

text \<open>What \<open>callAudioAPI\<close> does once the form is assembled and the reply has arrived.\<close>

lemma callAudioAPI_reply:
  assumes "audioMultipartForm e r [] = (Return None, tr)"
    and "NewRequestWithContext e ''POST'' (fullURL e (''/audio/'' @ endpointSuffix)) = None"
    and "transport e
           \<lparr>Method = ''POST'', URL = fullURL e (''/audio/'' @ endpointSuffix),
            ContentType = formDataContentType e (filter is_form_call tr),
            Body = filter is_form_call tr\<rparr> = Inr body"
  shows "callAudioAPI e r endpointSuffix =
           (Return (if HasJSONResponse r
                    then (case json_Decode e body of
                            Inl err \<Rightarrow> (AudioResponse_zero, Some err)
                          | Inr decoded \<Rightarrow> (decoded, None))
                    else (\<lparr>Text = body\<rparr>, None)),
            tr @ [NewRequest ''POST'' (fullURL e (''/audio/'' @ endpointSuffix)),
                  SendRequest ''POST'' (fullURL e (''/audio/'' @ endpointSuffix))
                    (if HasJSONResponse r then ResponsePtr else TextPtr)])"
  using assms
  by (simp add: callAudioAPI_def sendRequest_def AudioResponse_zero_def Let_def
        split: sum.split)

text \<open>
  C1. Take a run in which the form is assembled, the request is built and the transport
  hands back a body. If the format is empty or \<open>json\<close>, the result is what the JSON
  decoder makes of the body: the decoded response, or the zero response with the
  decoding error. If the format is \<open>srt\<close> or \<open>vtt\<close>, the result is the response whose
  text is the whole body, with no error, whatever the body is and whatever the decoder
  would make of it.
\<close>

theorem decoding_follows_format:
  assumes "audioMultipartForm e r [] = (Return None, tr)"
    and "NewRequestWithContext e ''POST'' (fullURL e (''/audio/'' @ endpointSuffix)) = None"
    and "transport e
           \<lparr>Method = ''POST'', URL = fullURL e (''/audio/'' @ endpointSuffix),
            ContentType = formDataContentType e (filter is_form_call tr),
            Body = filter is_form_call tr\<rparr> = Inr body"
  shows "(Format r = [] \<or> Format r = ''json'' \<longrightarrow>
            fst (callAudioAPI e r endpointSuffix) =
              Return (case json_Decode e body of
                        Inl err \<Rightarrow> (AudioResponse_zero, Some err)
                      | Inr decoded \<Rightarrow> (decoded, None))) \<and>
         (Format r = ''srt'' \<or> Format r = ''vtt'' \<longrightarrow>
            fst (callAudioAPI e r endpointSuffix) = Return (\<lparr>Text = body\<rparr>, None))"
  using callAudioAPI_reply [OF assms]
  by (auto simp add: HasJSONResponse_def AudioResponseFormatJSON_def)

lemma req_full_json_run:
  "audioMultipartForm env_ok (req_full\<lparr>Format := ''json''\<rparr>) [] =
     (Return None,
      [OsOpen ''a.wav'', CreateFormFile ''file'' (File ''a.wav''),
       WriteField ''model'' ''whisper-1'', WriteField ''prompt'' ''English'',
       WriteField ''response_format'' ''json'', WriteField ''temperature'' ''0.50'',
       WriteField ''language'' ''en'', BuilderClose, FileClose (File ''a.wav'')])"
proof -
  have "f32_ne_zero 0x3F000000" by (simp add: f32_defs)
  then show ?thesis by (simp add: eval_defs Sprintf_2f_half)
qed

theorem decoding_follows_format_witness:
  "fst (callAudioAPI env_ok req_full ''transcriptions'') = Return (\<lparr>Text = hello_json\<rparr>, None) \<and>
   json_Decode env_ok hello_json = Inr \<lparr>Text = ''hello''\<rparr> \<and>
   fst (callAudioAPI env_ok (req_full\<lparr>Format := ''json''\<rparr>) ''transcriptions'') =
     Return (\<lparr>Text = ''hello''\<rparr>, None)"
proof -
  have n: "NewRequestWithContext env_ok ''POST'' (fullURL env_ok (''/audio/'' @ ''transcriptions'')) = None"
    by (simp add: env_ok_def)
  have t: "\<And>req. transport env_ok req = Inr hello_json" by (simp add: env_ok_def)
  have d: "json_Decode env_ok hello_json = Inr \<lparr>Text = ''hello''\<rparr>" by (simp add: env_ok_def)
  have f1: "Format req_full = ''srt''" by (simp add: req_full_def)
  have f2: "Format (req_full\<lparr>Format := ''json''\<rparr>) = ''json''" by simp
  from decoding_follows_format [OF req_full_run n t] f1
  have "fst (callAudioAPI env_ok req_full ''transcriptions'') = Return (\<lparr>Text = hello_json\<rparr>, None)"
    by simp
  moreover from decoding_follows_format [OF req_full_json_run n t] f2 d
  have "fst (callAudioAPI env_ok (req_full\<lparr>Format := ''json''\<rparr>) ''transcriptions'') =
      Return (\<lparr>Text = ''hello''\<rparr>, None)"
    by simp
  ultimately show ?thesis using d by simp
qed

text \<open>
  C10. The format is not checked against \<open>json\<close>, \<open>srt\<close>, \<open>vtt\<close>. In any run, a value
  written as the field \<open>response_format\<close> is the format of the request, as it is. When
  the format is not empty and the assembly succeeds, that field is written, once. When
  moreover the format is not \<open>json\<close> and the reply arrives, the result is the response
  whose text is the whole body: the reply is sent to the \<open>Text\<close> of the response, not
  to the JSON decoder.
\<close>

theorem format_is_not_validated:
  "(\<forall>v. WriteField ''response_format'' v \<in> set (snd (audioMultipartForm e r [])) \<longrightarrow>
      v = Format r) \<and>
   (Format r \<noteq> [] \<and> audioMultipartForm e r [] = (Return None, tr) \<longrightarrow>
      filter (\<lambda>c. field_name c = Some ''response_format'') tr =
        [WriteField ''response_format'' (Format r)]) \<and>
   (Format r \<noteq> [] \<and> Format r \<noteq> ''json'' \<and>
    audioMultipartForm e r [] = (Return None, tr) \<and>
    NewRequestWithContext e ''POST'' (fullURL e (''/audio/'' @ endpointSuffix)) = None \<and>
    transport e
      \<lparr>Method = ''POST'', URL = fullURL e (''/audio/'' @ endpointSuffix),
       ContentType = formDataContentType e (filter is_form_call tr),
       Body = filter is_form_call tr\<rparr> = Inr body \<longrightarrow>
      callAudioAPI e r endpointSuffix =
        (Return (\<lparr>Text = body\<rparr>, None),
         tr @ [NewRequest ''POST'' (fullURL e (''/audio/'' @ endpointSuffix)),
               SendRequest ''POST'' (fullURL e (''/audio/'' @ endpointSuffix)) TextPtr]))"
proof -
  have verbatim: "\<forall>v. WriteField ''response_format'' v \<in> set (snd (audioMultipartForm e r [])) \<longrightarrow>
      v = Format r"
  proof (intro allI impI)
    fix v assume "WriteField ''response_format'' v \<in> set (snd (audioMultipartForm e r []))"
    from amf_form_calls [OF this]
    have "WriteField ''response_format'' v \<in> fst ` set (field_steps r)" by auto
    then show "v = Format r" by (auto simp add: field_steps_def split: if_splits)
  qed
  have written: "Format r \<noteq> [] \<and> audioMultipartForm e r [] = (Return None, tr) \<longrightarrow>
      filter (\<lambda>c. field_name c = Some ''response_format'') tr =
        [WriteField ''response_format'' (Format r)]"
  proof
    assume a: "Format r \<noteq> [] \<and> audioMultipartForm e r [] = (Return None, tr)"
    then have "audioMultipartForm e r [] = (Return None, tr)" by simp
    from amf_success [OF this] a
    show "filter (\<lambda>c. field_name c = Some ''response_format'') tr =
        [WriteField ''response_format'' (Format r)]"
      by (auto simp add: field_steps_def)
  qed
  have raw: "Format r \<noteq> [] \<and> Format r \<noteq> ''json'' \<and>
      audioMultipartForm e r [] = (Return None, tr) \<and>
      NewRequestWithContext e ''POST'' (fullURL e (''/audio/'' @ endpointSuffix)) = None \<and>
      transport e
        \<lparr>Method = ''POST'', URL = fullURL e (''/audio/'' @ endpointSuffix),
         ContentType = formDataContentType e (filter is_form_call tr),
         Body = filter is_form_call tr\<rparr> = Inr body \<longrightarrow>
      callAudioAPI e r endpointSuffix =
        (Return (\<lparr>Text = body\<rparr>, None),
         tr @ [NewRequest ''POST'' (fullURL e (''/audio/'' @ endpointSuffix)),
               SendRequest ''POST'' (fullURL e (''/audio/'' @ endpointSuffix)) TextPtr])"
  proof
    assume a: "Format r \<noteq> [] \<and> Format r \<noteq> ''json'' \<and>
      audioMultipartForm e r [] = (Return None, tr) \<and>
      NewRequestWithContext e ''POST'' (fullURL e (''/audio/'' @ endpointSuffix)) = None \<and>
      transport e
        \<lparr>Method = ''POST'', URL = fullURL e (''/audio/'' @ endpointSuffix),
         ContentType = formDataContentType e (filter is_form_call tr),
         Body = filter is_form_call tr\<rparr> = Inr body"
    then have "callAudioAPI e r endpointSuffix =
        (Return (if HasJSONResponse r
                 then (case json_Decode e body of
                         Inl err \<Rightarrow> (AudioResponse_zero, Some err)
                       | Inr decoded \<Rightarrow> (decoded, None))
                 else (\<lparr>Text = body\<rparr>, None)),
         tr @ [NewRequest ''POST'' (fullURL e (''/audio/'' @ endpointSuffix)),
               SendRequest ''POST'' (fullURL e (''/audio/'' @ endpointSuffix))
                 (if HasJSONResponse r then ResponsePtr else TextPtr)])"
      by (intro callAudioAPI_reply) simp_all
    with a show "callAudioAPI e r endpointSuffix =
        (Return (\<lparr>Text = body\<rparr>, None),
         tr @ [NewRequest ''POST'' (fullURL e (''/audio/'' @ endpointSuffix)),
               SendRequest ''POST'' (fullURL e (''/audio/'' @ endpointSuffix)) TextPtr])"
      by (simp add: HasJSONResponse_def AudioResponseFormatJSON_def)
  qed
  from verbatim written raw show ?thesis by blast
qed

lemma req_verbose_run:
  "audioMultipartForm env_ok (req_path\<lparr>Format := ''verbose_json''\<rparr>) [] =
     (Return None,
      [OsOpen ''a.wav'', CreateFormFile ''file'' (File ''a.wav''),
       WriteField ''model'' ''whisper-1'', WriteField ''response_format'' ''verbose_json'',
       BuilderClose, FileClose (File ''a.wav'')])"
  by (simp add: eval_defs f32_defs)

theorem format_is_not_validated_witness:
  "Format (req_path\<lparr>Format := ''verbose_json''\<rparr>) \<noteq> [] \<and>
   Format (req_path\<lparr>Format := ''verbose_json''\<rparr>) \<noteq> ''json'' \<and>
   audioMultipartForm env_ok (req_path\<lparr>Format := ''verbose_json''\<rparr>) [] =
     (Return None,
      [OsOpen ''a.wav'', CreateFormFile ''file'' (File ''a.wav''),
       WriteField ''model'' ''whisper-1'', WriteField ''response_format'' ''verbose_json'',
       BuilderClose, FileClose (File ''a.wav'')]) \<and>
   callAudioAPI env_ok (req_path\<lparr>Format := ''verbose_json''\<rparr>) ''transcriptions'' =
     (Return (\<lparr>Text = hello_json\<rparr>, None),
      [OsOpen ''a.wav'', CreateFormFile ''file'' (File ''a.wav''),
       WriteField ''model'' ''whisper-1'', WriteField ''response_format'' ''verbose_json'',
       BuilderClose, FileClose (File ''a.wav''),
       NewRequest ''POST'' ''https://api.openai.com/v1/audio/transcriptions'',
       SendRequest ''POST'' ''https://api.openai.com/v1/audio/transcriptions'' TextPtr])"
proof -
  let ?r = "req_path\<lparr>Format := ''verbose_json''\<rparr>"
  have f: "Format ?r \<noteq> []" by simp
  have n: "NewRequestWithContext env_ok ''POST'' (fullURL env_ok (''/audio/'' @ ''transcriptions'')) = None"
    by (simp add: env_ok_def)
  have t: "\<And>req. transport env_ok req = Inr hello_json" by (simp add: env_ok_def)
  have u: "fullURL env_ok (''/audio/'' @ ''transcriptions'') =
      ''https://api.openai.com/v1/audio/transcriptions''" by (simp add: env_ok_def)
  from format_is_not_validated
      [of env_ok ?r "snd (audioMultipartForm env_ok ?r [])" "''transcriptions''" hello_json]
    f n t u req_verbose_run
  show ?thesis by simp
qed

section \<open>The temperature\<close>

subsection \<open>Rounding and printing\<close>

lemma round_half_even_nearest:
  assumes "0 < d"
  shows "2 * (round_half_even n d * d) \<le> 2 * n + d \<and> 2 * n \<le> 2 * (round_half_even n d * d) + d"
proof -
  define q where "q = n div d"
  define m where "m = n mod d"
  have n: "n = q * d + m" by (simp add: q_def m_def)
  have m: "m < d" using assms by (simp add: m_def)
  have up: "(q + 1) * d = q * d + d" by (simp add: algebra_simps)
  show ?thesis
  proof (cases "d < 2 * m \<or> (2 * m = d \<and> odd q)")
    case True
    then have "round_half_even n d = q + 1"
      by (simp add: round_half_even_def q_def m_def Let_def)
    with True n m up show ?thesis by auto
  next
    case False
    then have "round_half_even n d = q"
      by (auto simp add: round_half_even_def q_def m_def Let_def)
    with False n m show ?thesis by auto
  qed
qed

lemma f32_den_pos: "0 < f32_den w"
  by (simp add: f32_den_def)

lemma is_digit_digit: "is_digit (digit n)"
  unfolding is_digit_def digit_def by (rule nth_mem) simp

lemma Itoa_digits: "list_all is_digit (Itoa n) \<and> Itoa n \<noteq> []"
  by (induction n rule: Itoa.induct) (subst Itoa.simps, simp add: is_digit_digit)+

lemma two_decimals_shape:
  assumes "list_all is_digit ip" and "ip \<noteq> []" and "is_digit d1" and "is_digit d2"
    and "sign = [] \<or> sign = ''-''"
  shows "two_decimals (sign @ ip @ ''.'' @ [d1, d2])"
proof -
  have nd: "\<not> is_digit CHR ''.''" "\<not> is_digit CHR ''-''" by (simp_all add: is_digit_def)
  from assms(1) have all: "\<And>x. x \<in> set ip \<Longrightarrow> is_digit x" by (simp add: list_all_iff)
  have tw: "takeWhile is_digit (ip @ ''.'' @ [d1, d2]) = ip"
    using all nd(1) by (simp add: takeWhile_append2)
  have dw: "dropWhile is_digit (ip @ ''.'' @ [d1, d2]) = ''.'' @ [d1, d2]"
    using all nd(1) by (simp add: dropWhile_append2)
  from assms(2) obtain c cs where ip: "ip = c # cs" by (cases ip) auto
  with all have "is_digit c" by simp
  with nd(2) have c: "c \<noteq> CHR ''-''" by auto
  from assms(5) show ?thesis
  proof
    assume "sign = []"
    with ip c have "(case sign @ ip @ ''.'' @ [d1, d2] of [] \<Rightarrow> []
        | x # xs \<Rightarrow> if x = CHR ''-'' then xs else sign @ ip @ ''.'' @ [d1, d2]) =
        ip @ ''.'' @ [d1, d2]" by simp
    then show ?thesis
      unfolding two_decimals_def Let_def using tw dw assms(2-4) by simp
  next
    assume "sign = ''-''"
    then have "(case sign @ ip @ ''.'' @ [d1, d2] of [] \<Rightarrow> []
        | x # xs \<Rightarrow> if x = CHR ''-'' then xs else sign @ ip @ ''.'' @ [d1, d2]) =
        ip @ ''.'' @ [d1, d2]" by simp
    then show ?thesis
      unfolding two_decimals_def Let_def using tw dw assms(2-4) by simp
  qed
qed

text \<open>
  For a finite value \<open>%.2f\<close> prints the hundredths \<open>h\<close> nearest to the magnitude (the
  distance is at most half a hundredth), as sign, integer part, point and two digits.
\<close>

lemma Sprintf_2f_finite:
  assumes "\<not> IsNaN w" and "\<not> IsInf w"
  shows "two_decimals (Sprintf_2f w) \<and>
         (\<exists>h. Sprintf_2f w =
                 (if f32_sign w then ''-'' else []) @ Itoa (h div 100) @ ''.'' @
                 [digit (h mod 100 div 10), digit (h mod 10)] \<and>
               2 * (h * f32_den w) \<le> 2 * (100 * f32_num w) + f32_den w \<and>
               2 * (100 * f32_num w) \<le> 2 * (h * f32_den w) + f32_den w)"
proof -
  define h where "h = round_half_even (100 * f32_num w) (f32_den w)"
  have s: "Sprintf_2f w =
      (if f32_sign w then ''-'' else []) @ Itoa (h div 100) @ ''.'' @
      [digit (h mod 100 div 10), digit (h mod 10)]"
    using assms by (simp add: Sprintf_2f_def h_def Let_def)
  have "two_decimals ((if f32_sign w then ''-'' else []) @ Itoa (h div 100) @ ''.'' @
      [digit (h mod 100 div 10), digit (h mod 10)])"
    using Itoa_digits [of "h div 100"] by (intro two_decimals_shape) (simp_all add: is_digit_digit)
  with s have "two_decimals (Sprintf_2f w)" by simp
  moreover have "2 * (h * f32_den w) \<le> 2 * (100 * f32_num w) + f32_den w \<and>
      2 * (100 * f32_num w) \<le> 2 * (h * f32_den w) + f32_den w"
    unfolding h_def by (rule round_half_even_nearest) (rule f32_den_pos)
  ultimately show ?thesis using s by blast
qed

lemma Sprintf_2f_not_finite:
  "(IsNaN w \<longrightarrow> Sprintf_2f w = ''NaN'') \<and>
   (IsInf w \<longrightarrow> Sprintf_2f w = (if f32_sign w then ''-Inf'' else ''+Inf''))"
  by (simp add: Sprintf_2f_def IsNaN_def IsInf_def)

text \<open>
  C4, as amended. When the temperature is zero (either zero), no run writes a field
  \<open>temperature\<close>. When it is not zero and the assembly succeeds, the field is written,
  once, with the value that \<open>%.2f\<close> prints. For a finite temperature that value has the
  shape \<open>[-]d...d.dd\<close>, with exactly two decimals, and its hundredths are the nearest to
  the number. For a NaN and for the infinities the value is \<open>NaN\<close>, \<open>+Inf\<close> or
  \<open>-Inf\<close>.
\<close>

theorem temperature_field_written_iff_nonzero:
  "(\<not> f32_ne_zero (Temperature r) \<longrightarrow>
      (\<forall>v. WriteField ''temperature'' v \<notin> set (snd (audioMultipartForm e r [])))) \<and>
   (f32_ne_zero (Temperature r) \<and> audioMultipartForm e r [] = (Return None, tr) \<longrightarrow>
      filter (\<lambda>c. field_name c = Some ''temperature'') tr =
        [WriteField ''temperature'' (Sprintf_2f (Temperature r))]) \<and>
   (\<not> IsNaN (Temperature r) \<and> \<not> IsInf (Temperature r) \<longrightarrow>
      two_decimals (Sprintf_2f (Temperature r)) \<and>
      (\<exists>h. Sprintf_2f (Temperature r) =
              (if f32_sign (Temperature r) then ''-'' else []) @ Itoa (h div 100) @ ''.'' @
              [digit (h mod 100 div 10), digit (h mod 10)] \<and>
            2 * (h * f32_den (Temperature r)) \<le>
              2 * (100 * f32_num (Temperature r)) + f32_den (Temperature r) \<and>
            2 * (100 * f32_num (Temperature r)) \<le>
              2 * (h * f32_den (Temperature r)) + f32_den (Temperature r))) \<and>
   (IsNaN (Temperature r) \<longrightarrow> Sprintf_2f (Temperature r) = ''NaN'') \<and>
   (IsInf (Temperature r) \<longrightarrow>
      Sprintf_2f (Temperature r) = (if f32_sign (Temperature r) then ''-Inf'' else ''+Inf''))"
proof -
  have zero: "\<not> f32_ne_zero (Temperature r) \<longrightarrow>
      (\<forall>v. WriteField ''temperature'' v \<notin> set (snd (audioMultipartForm e r [])))"
  proof (intro impI allI notI)
    fix v assume z: "\<not> f32_ne_zero (Temperature r)"
      and "WriteField ''temperature'' v \<in> set (snd (audioMultipartForm e r []))"
    from amf_form_calls [OF this(2)] have "WriteField ''temperature'' v \<in> fst ` set (field_steps r)"
      by auto
    with z show False by (auto simp add: field_steps_def split: if_splits)
  qed
  have nonzero: "f32_ne_zero (Temperature r) \<and> audioMultipartForm e r [] = (Return None, tr) \<longrightarrow>
      filter (\<lambda>c. field_name c = Some ''temperature'') tr =
        [WriteField ''temperature'' (Sprintf_2f (Temperature r))]"
  proof
    assume a: "f32_ne_zero (Temperature r) \<and> audioMultipartForm e r [] = (Return None, tr)"
    then have "audioMultipartForm e r [] = (Return None, tr)" by simp
    from amf_success [OF this] a show "filter (\<lambda>c. field_name c = Some ''temperature'') tr =
        [WriteField ''temperature'' (Sprintf_2f (Temperature r))]"
      by (auto simp add: field_steps_def)
  qed
  from zero nonzero Sprintf_2f_finite [of "Temperature r"] Sprintf_2f_not_finite [of "Temperature r"]
  show ?thesis by blast
qed

lemma req_inf_run:
  "audioMultipartForm env_ok (req_path\<lparr>Temperature := 0x7F800000\<rparr>) [] =
     (Return None,
      [OsOpen ''a.wav'', CreateFormFile ''file'' (File ''a.wav''),
       WriteField ''model'' ''whisper-1'', WriteField ''temperature'' ''+Inf'',
       BuilderClose, FileClose (File ''a.wav'')])"
proof -
  have "f32_ne_zero 0x7F800000" by (simp add: f32_defs)
  moreover have "Sprintf_2f 0x7F800000 = ''+Inf''" by (simp add: f32_defs)
  ultimately show ?thesis by (simp add: eval_defs)
qed

lemma req_path_run:
  "audioMultipartForm env_ok req_path [] =
     (Return None,
      [OsOpen ''a.wav'', CreateFormFile ''file'' (File ''a.wav''),
       WriteField ''model'' ''whisper-1'', BuilderClose, FileClose (File ''a.wav'')])"
  by (simp add: eval_defs f32_defs)

theorem temperature_field_written_iff_nonzero_witness:
  "\<not> f32_ne_zero (Temperature req_path) \<and>
   WriteField ''temperature'' ''0.00'' \<notin> set (snd (audioMultipartForm env_ok req_path [])) \<and>
   f32_ne_zero (Temperature req_full) \<and>
   filter (\<lambda>c. field_name c = Some ''temperature'') (snd (audioMultipartForm env_ok req_full [])) =
     [WriteField ''temperature'' ''0.50''] \<and>
   two_decimals ''0.50'' \<and>
   IsInf (Temperature (req_path\<lparr>Temperature := 0x7F800000\<rparr>)) \<and>
   Sprintf_2f (Temperature (req_path\<lparr>Temperature := 0x7F800000\<rparr>)) = ''+Inf''"
proof -
  have z: "\<not> f32_ne_zero (Temperature req_path)"
    by (simp add: req_path_def req_none_def f32_defs)
  have nz: "f32_ne_zero (Temperature req_full)"
    by (simp add: req_full_def f32_defs)
  have fin: "\<not> IsNaN (Temperature req_full) \<and> \<not> IsInf (Temperature req_full)"
    by (simp add: req_full_def f32_defs)
  have half: "Sprintf_2f (Temperature req_full) = ''0.50''"
    by (simp add: req_full_def Sprintf_2f_half)
  have inf: "IsInf (Temperature (req_path\<lparr>Temperature := 0x7F800000\<rparr>))"
    by (simp add: f32_defs)
  have pos: "\<not> f32_sign (Temperature (req_path\<lparr>Temperature := 0x7F800000\<rparr>))"
    by (simp add: f32_defs)
  from temperature_field_written_iff_nonzero [of req_path env_ok] z
  have a: "WriteField ''temperature'' ''0.00'' \<notin> set (snd (audioMultipartForm env_ok req_path []))"
    by blast
  from temperature_field_written_iff_nonzero
    [of req_full env_ok "snd (audioMultipartForm env_ok req_full [])"] nz fin half req_full_run
  have b: "filter (\<lambda>c. field_name c = Some ''temperature'')
        (snd (audioMultipartForm env_ok req_full [])) = [WriteField ''temperature'' ''0.50''] \<and>
      two_decimals ''0.50''"
    by simp
  from temperature_field_written_iff_nonzero [of "req_path\<lparr>Temperature := 0x7F800000\<rparr>" env_ok]
    inf pos
  have c: "Sprintf_2f (Temperature (req_path\<lparr>Temperature := 0x7F800000\<rparr>)) = ''+Inf''"
    by simp
  from z a nz b inf c show ?thesis by simp
qed

text \<open>
  C4 as stated asks for two decimal digits whenever the temperature is not zero. The
  positive infinity (the bit pattern \<open>0x7F800000\<close>) is not zero, the field is written,
  and its value \<open>+Inf\<close> has no decimal digit.
\<close>

theorem temperature_two_decimals_counterexample:
  "f32_ne_zero (Temperature (req_path\<lparr>Temperature := 0x7F800000\<rparr>)) \<and>
   audioMultipartForm env_ok (req_path\<lparr>Temperature := 0x7F800000\<rparr>) [] =
     (Return None,
      [OsOpen ''a.wav'', CreateFormFile ''file'' (File ''a.wav''),
       WriteField ''model'' ''whisper-1'', WriteField ''temperature'' ''+Inf'',
       BuilderClose, FileClose (File ''a.wav'')]) \<and>
   \<not> two_decimals ''+Inf''"
proof -
  have "f32_ne_zero (Temperature (req_path\<lparr>Temperature := 0x7F800000\<rparr>))"
    by (simp add: f32_defs)
  moreover have "\<not> two_decimals ''+Inf''"
    by (simp add: two_decimals_def is_digit_def)
  ultimately show ?thesis using req_inf_run by simp
qed

end
